theory Spec2Isabelle
  imports Main
begin

section \<open>JSON values\<close>

text \<open>
  The route hands JavaScript values to \<^verbatim>\<open>res.json\<close>: the object literal of the reply,
  the list literal of the products, and whatever \<^verbatim>\<open>JSON.parse\<close> returned for the
  cached text. They are modelled as JSON trees. JavaScript numbers are IEEE doubles,
  which are not modelled, so the type of numbers is a parameter \<open>'n\<close>; the code itself
  only writes the numbers 1 and 2. A string is a list of 8-bit characters (the bytes of
  its encoding), and an object is the list of its members in order.
\<close>

datatype 'n json =
    JNull
  | JBool bool
  | JNum 'n
  | JStr string
  | JArr "'n json list"
  | JObj "(string \<times> 'n json) list"

text \<open>
  \<^verbatim>\<open>JSON.stringify\<close> on trees whose numbers are integers, which covers the one value the
  route serialises.
\<close>

definition digit_char :: "nat \<Rightarrow> char" where
  "digit_char d = ''0123456789'' ! (d mod 10)"

fun show_nat :: "nat \<Rightarrow> string" where
  "show_nat n = (if n < 10 then [digit_char n] else show_nat (n div 10) @ [digit_char n])"

definition show_int :: "int \<Rightarrow> string" where
  "show_int i = (if i < 0 then CHR ''-'' # show_nat (nat (- i)) else show_nat (nat i))"

definition hex_char :: "nat \<Rightarrow> char" where
  "hex_char d = ''0123456789abcdef'' ! (d mod 16)"

definition escape :: "char \<Rightarrow> string" where
  "escape c =
     (if c = CHR 0x22 then [CHR 0x5C, CHR 0x22]
      else if c = CHR 0x5C then [CHR 0x5C, CHR 0x5C]
      else if c = CHR 0x08 then [CHR 0x5C, CHR ''b'']
      else if c = CHR 0x0C then [CHR 0x5C, CHR ''f'']
      else if c = CHR 0x0A then [CHR 0x5C, CHR ''n'']
      else if c = CHR 0x0D then [CHR 0x5C, CHR ''r'']
      else if c = CHR 0x09 then [CHR 0x5C, CHR ''t'']
      else if of_char c < (32::nat)
        then [CHR 0x5C, CHR ''u'', CHR ''0'', CHR ''0'', hex_char (of_char c div 16), hex_char (of_char c)]
      else [c])"

definition quote :: "string \<Rightarrow> string" where
  "quote s = CHR 0x22 # concat (map escape s) @ [CHR 0x22]"

fun commas :: "string list \<Rightarrow> string" where
  "commas [] = []"
| "commas [x] = x"
| "commas (x # xs) = x @ CHR '','' # commas xs"

fun JSON_stringify :: "int json \<Rightarrow> string" where
  "JSON_stringify JNull = ''null''"
| "JSON_stringify (JBool b) = (if b then ''true'' else ''false'')"
| "JSON_stringify (JNum i) = show_int i"
| "JSON_stringify (JStr s) = quote s"
| "JSON_stringify (JArr vs) = CHR ''['' # commas (map JSON_stringify vs) @ '']''"
| "JSON_stringify (JObj ms) =
     CHR ''{'' # commas (map (\<lambda>(k, v). quote k @ CHR '':'' # JSON_stringify v) ms) @ ''}''"

section \<open>A reader for the texts the route writes\<close>

text \<open>
  \<^verbatim>\<open>JSON.parse\<close> is a built-in of the language and is not modelled: the route below
  takes it as an argument, and the statements about the route hold for every function in
  its place. To run the route on the text it has written itself, this section defines a
  reader for a fragment of JSON: integer literals for numbers, 8-bit characters, members
  in textual order. On a text outside the fragment (a fraction, an exponent, an escape
  above \<^verbatim>\<open>00ff\<close>) the reader answers \<open>None\<close> where the built-in may well accept. It
  keeps integers exact where the built-in rounds to a double, and it keeps every member
  of an object in textual order where the built-in keeps the last of equal keys and
  moves integer-like keys to the front. So it stands in for the built-in only on texts
  such as the serialised product list, where the two agree.

  The reader is a recursive-descent parser. The scanners for white space, string bodies
  and integers recurse on the text itself; the mutually recursive part (values, array
  elements, object members) recurses on a budget that the entry point sets to more than
  twice the length of the text, which is never used up.
\<close>

definition is_ws :: "char \<Rightarrow> bool" where
  "is_ws c = (c = CHR 0x20 \<or> c = CHR 0x09 \<or> c = CHR 0x0A \<or> c = CHR 0x0D)"

definition skip_ws :: "string \<Rightarrow> string" where
  "skip_ws = dropWhile is_ws"

definition is_digit :: "char \<Rightarrow> bool" where
  "is_digit c = (48 \<le> (of_char c :: nat) \<and> (of_char c :: nat) \<le> 57)"

definition hex_val :: "char \<Rightarrow> nat option" where
  "hex_val c =
     (let n = (of_char c :: nat) in
      if 48 \<le> n \<and> n \<le> 57 then Some (n - 48)
      else if 97 \<le> n \<and> n \<le> 102 then Some (n - 87)
      else if 65 \<le> n \<and> n \<le> 70 then Some (n - 55)
      else None)"

definition unescape :: "char \<Rightarrow> char option" where
  "unescape e =
     (if e = CHR 0x22 then Some (CHR 0x22)
      else if e = CHR 0x5C then Some (CHR 0x5C)
      else if e = CHR ''/'' then Some (CHR ''/'')
      else if e = CHR ''b'' then Some (CHR 0x08)
      else if e = CHR ''f'' then Some (CHR 0x0C)
      else if e = CHR ''n'' then Some (CHR 0x0A)
      else if e = CHR ''r'' then Some (CHR 0x0D)
      else if e = CHR ''t'' then Some (CHR 0x09)
      else None)"

definition unicode_escape :: "char \<Rightarrow> char \<Rightarrow> char \<Rightarrow> char \<Rightarrow> char option" where
  "unicode_escape a b c d =
     (case (hex_val a, hex_val b, hex_val c, hex_val d) of
        (Some h3, Some h2, Some h1, Some h0) \<Rightarrow>
          if h3 = 0 \<and> h2 = 0 then Some (char_of (16 * h1 + h0)) else None
      | _ \<Rightarrow> None)"

fun scan_string :: "string \<Rightarrow> (string \<times> string) option" where
  "scan_string [] = None"
| "scan_string (c # cs) =
     (if c = CHR 0x22 then Some ([], cs)
      else if (of_char c :: nat) < 32 then None
      else if c = CHR 0x5C then
        (case cs of
           [] \<Rightarrow> None
         | e # cs1 \<Rightarrow>
             if e = CHR ''u'' then
               (case cs1 of
                  h3 # h2 # h1 # h0 # cs2 \<Rightarrow>
                    (case unicode_escape h3 h2 h1 h0 of
                       None \<Rightarrow> None
                     | Some ch \<Rightarrow> map_option (apfst ((#) ch)) (scan_string cs2))
                | _ \<Rightarrow> None)
             else
               (case unescape e of
                  None \<Rightarrow> None
                | Some ch \<Rightarrow> map_option (apfst ((#) ch)) (scan_string cs1)))
      else map_option (apfst ((#) c)) (scan_string cs))"

definition digits_val :: "string \<Rightarrow> nat" where
  "digits_val ds = foldl (\<lambda>n c. 10 * n + ((of_char c :: nat) - 48)) 0 ds"

definition scan_int :: "string \<Rightarrow> (int \<times> string) option" where
  "scan_int s =
     (let neg = (case s of [] \<Rightarrow> False | c # _ \<Rightarrow> c = CHR ''-'');
          r = (if neg then tl s else s);
          ds = takeWhile is_digit r;
          rest = dropWhile is_digit r
      in if ds = [] then None
         else if hd ds = CHR ''0'' \<and> 1 < length ds then None
         else if rest \<noteq> [] \<and> hd rest \<in> set ''.eE'' then None
         else Some (if neg then - int (digits_val ds) else int (digits_val ds), rest))"

fun parse_value :: "nat \<Rightarrow> string \<Rightarrow> (int json \<times> string) option"
and parse_elements :: "nat \<Rightarrow> string \<Rightarrow> (int json list \<times> string) option"
and parse_members :: "nat \<Rightarrow> string \<Rightarrow> ((string \<times> int json) list \<times> string) option"
where
  "parse_value 0 s = None"
| "parse_value (Suc n) s =
     (case skip_ws s of
        [] \<Rightarrow> None
      | c # cs \<Rightarrow>
          if c = CHR ''n'' then (if take 3 cs = ''ull'' then Some (JNull, drop 3 cs) else None)
          else if c = CHR ''t'' then (if take 3 cs = ''rue'' then Some (JBool True, drop 3 cs) else None)
          else if c = CHR ''f'' then (if take 4 cs = ''alse'' then Some (JBool False, drop 4 cs) else None)
          else if c = CHR 0x22 then map_option (apfst JStr) (scan_string cs)
          else if c = CHR ''['' then
            (case skip_ws cs of
               [] \<Rightarrow> None
             | d # ds \<Rightarrow>
                 if d = CHR '']'' then Some (JArr [], ds)
                 else map_option (apfst JArr) (parse_elements n cs))
          else if c = CHR ''{'' then
            (case skip_ws cs of
               [] \<Rightarrow> None
             | d # ds \<Rightarrow>
                 if d = CHR ''}'' then Some (JObj [], ds)
                 else map_option (apfst JObj) (parse_members n cs))
          else map_option (apfst JNum) (scan_int (c # cs)))"
| "parse_elements 0 s = None"
| "parse_elements (Suc n) s =
     (case parse_value n s of
        None \<Rightarrow> None
      | Some (v, r) \<Rightarrow>
          (case skip_ws r of
             [] \<Rightarrow> None
           | c # cs \<Rightarrow>
               if c = CHR '']'' then Some ([v], cs)
               else if c = CHR '','' then map_option (apfst ((#) v)) (parse_elements n cs)
               else None))"
| "parse_members 0 s = None"
| "parse_members (Suc n) s =
     (case skip_ws s of
        [] \<Rightarrow> None
      | q # ks \<Rightarrow>
          if q \<noteq> CHR 0x22 then None
          else
            (case scan_string ks of
               None \<Rightarrow> None
             | Some (k, r) \<Rightarrow>
                 (case skip_ws r of
                    [] \<Rightarrow> None
                  | colon # vs \<Rightarrow>
                      if colon \<noteq> CHR '':'' then None
                      else
                        (case parse_value n vs of
                           None \<Rightarrow> None
                         | Some (v, r1) \<Rightarrow>
                             (case skip_ws r1 of
                                [] \<Rightarrow> None
                              | c # cs \<Rightarrow>
                                  if c = CHR ''}'' then Some ([(k, v)], cs)
                                  else if c = CHR '','' then
                                    map_option (apfst ((#) (k, v))) (parse_members n cs)
                                  else None)))))"

definition JSON_parse_fragment :: "string \<Rightarrow> int json option" where
  "JSON_parse_fragment s =
     (case parse_value (2 * length s + 1) s of
        None \<Rightarrow> None
      | Some (v, r) \<Rightarrow> if skip_ws r = [] then Some v else None)"

section \<open>The state of the running system\<close>

text \<open>
  \<^verbatim>\<open>backend/src/config/redis.js\<close> keeps two module variables, \<^verbatim>\<open>redisClient\<close> and
  \<^verbatim>\<open>redisReady\<close>. Everything else the code can observe or change is outside the
  process: the console, the time, the keys held by the cache service, and the calls made
  to the cache client and to the data source. One record holds all of it and is passed
  through every operation.
\<close>

type_synonym env = "string \<rightharpoonup> string"

text \<open>
  The options handed to \<^verbatim>\<open>createClient\<close>. \<open>Never\<close> is the value \<^verbatim>\<open>false\<close> of
  \<^verbatim>\<open>reconnectStrategy\<close>; \<open>Retry\<close> stands for every other value.
\<close>

datatype reconnect = Never | Retry

record client =
  host :: "string option"
  port :: "string option"
  reconnectStrategy :: reconnect

datatype level = LOG | WARN | ERROR

datatype call = GET string | SETEX string nat string | DB

record world =
  redisClient :: "client option"
  redisReady :: bool
  listening :: bool
  console :: "(level \<times> string) list"
  clock :: nat
  keyspace :: "string \<rightharpoonup> string \<times> nat"
  calls :: "call list"

text \<open>
  \<open>listening\<close> records that the three listeners of lines 21 to 34 are registered on a
  client object; without them no event reaches the module variables. \<open>clock\<close> counts
  milliseconds. \<open>keyspace\<close> maps a key to its value and the instant at which it expires.
  \<open>calls\<close> lists, oldest first, every command sent to the cache and every run of the
  data source.
\<close>

definition loaded :: "(string \<rightharpoonup> string \<times> nat) \<Rightarrow> nat \<Rightarrow> world" where
  "loaded ks t =
     \<lparr>redisClient = None, redisReady = False, listening = False, console = [],
      clock = t, keyspace = ks, calls = []\<rparr>"

definition print :: "level \<Rightarrow> string \<Rightarrow> world \<Rightarrow> world" where
  "print l m w = w\<lparr>console := console w @ [(l, m)]\<rparr>"

section \<open>The cache client adapter: \<^verbatim>\<open>backend/src/config/redis.js\<close>\<close>

definition createClient :: "env \<Rightarrow> client" where
  "createClient env =
     \<lparr>host = env ''REDIS_HOST'', port = env ''REDIS_PORT'', reconnectStrategy = Never\<rparr>"

datatype event = Ready | End | Error string

text \<open>The three listeners, lines 21 to 34.\<close>

fun on_event :: "event \<Rightarrow> world \<Rightarrow> world" where
  "on_event Ready w = print LOG ''Redis ready'' (w\<lparr>redisReady := True\<rparr>)"
| "on_event End w = print WARN ''Redis connection closed'' (w\<lparr>redisReady := False\<rparr>)"
| "on_event (Error msg) w =
     print WARN (''Redis error (ignored): '' @ msg) (w\<lparr>redisReady := False\<rparr>)"

definition emit :: "event \<Rightarrow> world \<Rightarrow> world" where
  "emit e w = (if listening w then on_event e w else w)"

text \<open>
  What the outside does during the one call of \<^verbatim>\<open>connectRedis\<close>: either
  \<^verbatim>\<open>createClient\<close> itself throws, or the client is built and, while
  \<^verbatim>\<open>await redisClient.connect()\<close> is pending, emits some events before the promise
  resolves or rejects (a refused connection and a timeout are both rejections).
\<close>

datatype settle = Resolves | Rejects string

datatype attempt = CreateThrows string | Connect "event list" settle

text \<open>The \<^verbatim>\<open>catch\<close> block, lines 38 to 43.\<close>

definition unavailable :: "world \<Rightarrow> client option \<times> world" where
  "unavailable w =
     (None, (print WARN ''Redis unavailable at startup'' w)\<lparr>redisClient := None, redisReady := False\<rparr>)"

definition connectRedis :: "env \<Rightarrow> attempt \<Rightarrow> world \<Rightarrow> client option \<times> world" where
  "connectRedis env att w =
     (if env ''REDIS_ENABLED'' \<noteq> Some ''true'' then (None, print LOG ''Redis disabled via env'' w)
      else
        (case att of
           CreateThrows _ \<Rightarrow> unavailable w
         | Connect evs r \<Rightarrow>
             (let w1 = w\<lparr>redisClient := Some (createClient env), listening := True\<rparr>;
                  w2 = fold emit evs w1
              in case r of
                   Resolves \<Rightarrow> (redisClient w2, w2)
                 | Rejects _ \<Rightarrow> unavailable w2)))"

definition getRedisClient :: "world \<Rightarrow> client option" where
  "getRedisClient w = (if redisClient w = None \<or> \<not> redisReady w then None else redisClient w)"

section \<open>The cache service and the data source as the route sees them\<close>

datatype 'a outcome = Returns 'a | Throws string

text \<open>
  What the outside does during one request: whether \<^verbatim>\<open>redis.get\<close> and
  \<^verbatim>\<open>redis.setEx\<close> reject (with a message) and whether the data source of lines 25 to
  31 throws. In this repository the data source is a timer and a literal and never
  throws; \<open>db_error\<close> is there so that the outer \<^verbatim>\<open>catch\<close> is a branch of the model.
\<close>

record request =
  get_error :: "string option"
  setEx_error :: "string option"
  db_error :: "string option"

text \<open>The value the service holds for a key now: entries past their expiry are gone.\<close>

definition redis_lookup :: "world \<Rightarrow> string \<Rightarrow> string option" where
  "redis_lookup w k =
     (case keyspace w k of
        None \<Rightarrow> None
      | Some (v, expiry) \<Rightarrow> if clock w < expiry then Some v else None)"

text \<open>
  \<^verbatim>\<open>redis.get(key)\<close> and \<^verbatim>\<open>redis.setEx(key, seconds, value)\<close>. A command that
  rejects leaves the keyspace as it was.
\<close>

definition redis_get :: "request \<Rightarrow> string \<Rightarrow> world \<Rightarrow> string option outcome \<times> world" where
  "redis_get rq k w =
     (let w1 = w\<lparr>calls := calls w @ [GET k]\<rparr>
      in case get_error rq of
           Some m \<Rightarrow> (Throws m, w1)
         | None \<Rightarrow> (Returns (redis_lookup w k), w1))"

definition redis_setEx :: "request \<Rightarrow> string \<Rightarrow> nat \<Rightarrow> string \<Rightarrow> world \<Rightarrow> unit outcome \<times> world" where
  "redis_setEx rq k seconds v w =
     (let w1 = w\<lparr>calls := calls w @ [SETEX k seconds v]\<rparr>
      in case setEx_error rq of
           Some m \<Rightarrow> (Throws m, w1)
         | None \<Rightarrow> (Returns (), w1\<lparr>keyspace := (keyspace w)(k \<mapsto> (v, clock w + seconds * 1000))\<rparr>))"

section \<open>The read-through handler: the route \<^verbatim>\<open>GET /api/products\<close>\<close>

record 'n reply =
  status :: nat
  body :: "'n json"

definition res_json :: "nat \<Rightarrow> (string \<times> 'n json) list \<Rightarrow> 'n reply" where
  "res_json code members = \<lparr>status = code, body = JObj members\<rparr>"

definition cacheKey :: string where
  "cacheKey = ''products:all''"

definition products :: "'n::numeral json" where
  "products = JArr [JObj [(''id'', JNum 1), (''name'', JStr ''Laptop'')],
                    JObj [(''id'', JNum 2), (''name'', JStr ''Phone'')]]"

text \<open>
  Lines 11 to 23, the guarded cache read. The result is the reply when the route returns
  from inside the block, and \<open>None\<close> when control falls through to the data source. The
  test \<^verbatim>\<open>if (cached)\<close> fails for \<^verbatim>\<open>null\<close> and for the empty string.
  \<open>parse\<close> stands for \<^verbatim>\<open>JSON.parse\<close>, with \<open>None\<close> for the \<^verbatim>\<open>SyntaxError\<close> it
  throws on a malformed text; the call sits inside the inner block, so that exception is
  caught there too.
\<close>

definition cache_read ::
  "(string \<Rightarrow> 'n json option) \<Rightarrow> client option \<Rightarrow> request \<Rightarrow> world \<Rightarrow> 'n reply option \<times> world" where
  "cache_read parse redis rq w =
     (case redis of
        None \<Rightarrow> (None, w)
      | Some _ \<Rightarrow>
          (case redis_get rq cacheKey w of
             (Throws _, w1) \<Rightarrow> (None, print WARN ''Redis read failed, skipping cache'' w1)
           | (Returns cached, w1) \<Rightarrow>
               (case cached of
                  None \<Rightarrow> (None, w1)
                | Some text \<Rightarrow>
                    if text = [] then (None, w1)
                    else
                      (case parse text of
                         None \<Rightarrow> (None, print WARN ''Redis read failed, skipping cache'' w1)
                       | Some v \<Rightarrow>
                           (Some (res_json 200 [(''source'', JStr ''cache''), (''data'', v)]), w1)))))"

text \<open>Lines 25 to 31: the timer of 1500 milliseconds, then the literal list.\<close>

definition load_products :: "request \<Rightarrow> world \<Rightarrow> 'n::numeral json outcome \<times> world" where
  "load_products rq w =
     (let w1 = w\<lparr>clock := clock w + 1500, calls := calls w @ [DB]\<rparr>
      in case db_error rq of
           Some m \<Rightarrow> (Throws m, w1)
         | None \<Rightarrow> (Returns products, w1))"

text \<open>
  Lines 34 to 40, the guarded cache write. \<^verbatim>\<open>JSON.stringify(products)\<close> is the
  serialisation of the list literal, whose numbers are the integers 1 and 2.
\<close>

definition cache_write :: "client option \<Rightarrow> request \<Rightarrow> world \<Rightarrow> world" where
  "cache_write redis rq w =
     (case redis of
        None \<Rightarrow> w
      | Some _ \<Rightarrow>
          (case redis_setEx rq cacheKey 60 (JSON_stringify products) w of
             (Throws _, w1) \<Rightarrow> print WARN ''Redis write failed'' w1
           | (Returns _, w1) \<Rightarrow> w1))"

definition products_route ::
  "(string \<Rightarrow> 'n::numeral json option) \<Rightarrow> request \<Rightarrow> world \<Rightarrow> 'n reply \<times> world" where
  "products_route parse rq w =
     (let redis = getRedisClient w
      in case cache_read parse redis rq w of
           (Some r, w1) \<Rightarrow> (r, w1)
         | (None, w1) \<Rightarrow>
             (case load_products rq w1 of
                (Throws m, w2) \<Rightarrow>
                  (res_json 500 [(''error'', JStr ''Internal server error'')],
                   print ERROR (''Route failure: '' @ m) w2)
              | (Returns v, w2) \<Rightarrow>
                  (res_json 200 [(''source'', JStr ''db''), (''data'', v)],
                   cache_write redis rq w2)))"

section \<open>The life of the process\<close>

text \<open>
  After start-up the process handles requests while the client emits events and time
  passes. \<open>run\<close> plays such a history, with \<open>parse\<close> in the place of the built-in, and
  collects the replies in order.
\<close>

datatype step = Emit event | Fetch request | Wait nat

fun run ::
  "(string \<Rightarrow> 'n::numeral json option) \<Rightarrow> step list \<Rightarrow> world \<Rightarrow> 'n reply list \<times> world" where
  "run parse [] w = ([], w)"
| "run parse (Emit e # ss) w = run parse ss (emit e w)"
| "run parse (Wait d # ss) w = run parse ss (w\<lparr>clock := clock w + d\<rparr>)"
| "run parse (Fetch rq # ss) w =
     (let (r, w1) = products_route parse rq w;
          (rs, w2) = run parse ss w1
      in (r # rs, w2))"

text \<open>The history holds no request during which the data source throws.\<close>

fun source_up :: "step \<Rightarrow> bool" where
  "source_up (Fetch rq) = (db_error rq = None)"
| "source_up _ = True"

definition from_db :: "'n::numeral reply" where
  "from_db = res_json 200 [(''source'', JStr ''db''), (''data'', products)]"

definition from_cache :: "'n json \<Rightarrow> 'n reply" where
  "from_cache v = res_json 200 [(''source'', JStr ''cache''), (''data'', v)]"

definition boot :: "env \<Rightarrow> attempt \<Rightarrow> (string \<rightharpoonup> string \<times> nat) \<Rightarrow> nat \<Rightarrow> world" where
  "boot env att ks t = snd (connectRedis env att (loaded ks t))"

section \<open>Vocabulary for the statements\<close>

text \<open>
  Short names for the replies and inputs that the statements below talk about: the
  data member of a reply body, the reply of the outer \<^verbatim>\<open>catch\<close>, a connection attempt
  that ends in the adapter's \<^verbatim>\<open>catch\<close>, the events of a history, a request during
  which nothing fails, and the two environments of the README (cache switched on, cache
  switched off) with the world right after a successful start.
\<close>

definition data_of :: "'n reply \<Rightarrow> 'n json option" where
  "data_of r = (case body r of JObj ms \<Rightarrow> map_of ms ''data'' | _ \<Rightarrow> None)"

definition internal_error :: "'n reply" where
  "internal_error = res_json 500 [(''error'', JStr ''Internal server error'')]"

fun failed :: "attempt \<Rightarrow> bool" where
  "failed (CreateThrows _) = True"
| "failed (Connect _ (Rejects _)) = True"
| "failed (Connect _ Resolves) = False"


definition no_faults :: request where
  "no_faults = \<lparr>get_error = None, setEx_error = None, db_error = None\<rparr>"

definition env_on :: env where
  "env_on = [''REDIS_ENABLED'' \<mapsto> ''true'', ''REDIS_HOST'' \<mapsto> ''redis'', ''REDIS_PORT'' \<mapsto> ''6379'']"

definition env_off :: env where
  "env_off = [''REDIS_HOST'' \<mapsto> ''redis'', ''REDIS_ENABLED'' \<mapsto> ''false'']"

definition connected :: "(string \<rightharpoonup> string \<times> nat) \<Rightarrow> world" where
  "connected ks = boot env_on (Connect [Ready] Resolves) ks 0"

section \<open>Facts about the built-ins, the adapter and the route\<close>

text \<open>
  Every scanner of the reader that succeeds consumes at least one character, so its
  budget, once above twice the length of the text, has no influence on the result.
\<close>

lemma length_skip_ws: "length (skip_ws s) \<le> length s"
  by (simp add: skip_ws_def length_dropWhile_le)

lemma skip_ws_Cons: "skip_ws s = c # cs \<Longrightarrow> length cs < length s"
  using length_skip_ws [of s] by simp

lemma scan_string_shorter: "scan_string cs = Some (k, r) \<Longrightarrow> length r < Suc (length cs)"
proof (induction cs arbitrary: k r rule: scan_string.induct)
  case 1
  then show ?case by simp
next
  case (2 c cs)
  then show ?case
    by (fastforce split: if_splits list.splits option.splits)
qed

lemma scan_int_shorter: "scan_int s = Some (i, r) \<Longrightarrow> length r < length s"
proof -
  assume a: "scan_int s = Some (i, r)"
  define neg where "neg = (case s of [] \<Rightarrow> False | c # _ \<Rightarrow> c = CHR ''-'')"
  define r0 where "r0 = (if neg then tl s else s)"
  from a have ne: "takeWhile is_digit r0 \<noteq> []" and r: "r = dropWhile is_digit r0"
    by (auto simp: scan_int_def Let_def neg_def r0_def split: if_splits)
  have "length (takeWhile is_digit r0) + length (dropWhile is_digit r0) = length r0"
    by (metis length_append takeWhile_dropWhile_id)
  with ne r have "length r < length r0"
    by (cases "takeWhile is_digit r0") simp_all
  moreover have "length r0 \<le> length s"
    by (simp add: r0_def)
  ultimately show ?thesis by simp
qed

lemma parse_shorter:
  "(parse_value n s = Some (v, r) \<longrightarrow> length r < length s) \<and>
   (parse_elements n s = Some (vs, r) \<longrightarrow> length r < length s) \<and>
   (parse_members n s = Some (ms, r) \<longrightarrow> length r < length s)"
proof (induction n arbitrary: s v vs ms r)
  case 0
  show ?case by simp
next
  case (Suc n)
  from Suc.IH have ihv: "\<And>s v r. parse_value n s = Some (v, r) \<Longrightarrow> length r < length s"
    and ihe: "\<And>s vs r. parse_elements n s = Some (vs, r) \<Longrightarrow> length r < length s"
    and ihm: "\<And>s ms r. parse_members n s = Some (ms, r) \<Longrightarrow> length r < length s"
    by blast+
  have val: "length r < length s" if "parse_value (Suc n) s = Some (v, r)"
  proof -
    from that obtain c cs where sk: "skip_ws s = c # cs"
      by (cases "skip_ws s") simp_all
    note short = skip_ws_Cons [OF sk]
    from that sk short show ?thesis
      by (auto split: if_splits list.splits
          dest!: skip_ws_Cons ihe ihm scan_string_shorter scan_int_shorter)
  qed
  have elems: "length r < length s" if "parse_elements (Suc n) s = Some (vs, r)"
    using that
    by (auto split: if_splits list.splits option.splits dest!: skip_ws_Cons ihv ihe)
  have membs: "length r < length s" if "parse_members (Suc n) s = Some (ms, r)"
    using that
    by (auto split: if_splits list.splits option.splits
        dest!: skip_ws_Cons ihv ihm scan_string_shorter)
  from val elems membs show ?case by blast
qed

lemma parse_value_shorter: "parse_value n s = Some (v, r) \<Longrightarrow> length r < length s"
  using parse_shorter [of n s v r] by blast

lemma budget_suffices:
  "(2 * length s < n \<longrightarrow> 2 * length s < m \<longrightarrow> parse_value n s = parse_value m s) \<and>
   (2 * length s + 1 < n \<longrightarrow> 2 * length s + 1 < m \<longrightarrow> parse_elements n s = parse_elements m s) \<and>
   (2 * length s + 1 < n \<longrightarrow> 2 * length s + 1 < m \<longrightarrow> parse_members n s = parse_members m s)"
proof (induction n arbitrary: s m)
  case 0
  show ?case by simp
next
  case (Suc n)
  from Suc.IH
  have ihv: "\<And>s m. 2 * length s < n \<Longrightarrow> 2 * length s < m \<Longrightarrow> parse_value n s = parse_value m s"
    and ihe: "\<And>s m. 2 * length s + 1 < n \<Longrightarrow> 2 * length s + 1 < m \<Longrightarrow>
                 parse_elements n s = parse_elements m s"
    and ihm: "\<And>s m. 2 * length s + 1 < n \<Longrightarrow> 2 * length s + 1 < m \<Longrightarrow>
                 parse_members n s = parse_members m s"
    by blast+
  have val: "parse_value (Suc n) s = parse_value m s"
    if big: "2 * length s < Suc n" "2 * length s < m"
  proof -
    from big obtain m' where m: "m = Suc m'" by (cases m) simp_all
    show ?thesis
    proof (cases "skip_ws s")
      case Nil
      with m show ?thesis by simp
    next
      case (Cons c cs)
      from skip_ws_Cons [OF Cons] big m
      have "2 * length cs + 1 < n" and "2 * length cs + 1 < m'" by simp_all
      from ihe [OF this] ihm [OF this] Cons m show ?thesis by (simp split: list.splits)
    qed
  qed
  have elems: "parse_elements (Suc n) s = parse_elements m s"
    if big: "2 * length s + 1 < Suc n" "2 * length s + 1 < m"
  proof -
    from big obtain m' where m: "m = Suc m'" by (cases m) simp_all
    from big m have "2 * length s < n" and "2 * length s < m'" by simp_all
    from ihv [OF this] have same: "parse_value n s = parse_value m' s" .
    show ?thesis
    proof (cases "parse_value m' s")
      case None
      with same m show ?thesis by simp
    next
      case (Some p)
      obtain v r where p: "p = (v, r)" by (cases p)
      from Some p have short: "length r < length s" by (simp add: parse_value_shorter)
      show ?thesis
      proof (cases "skip_ws r")
        case Nil
        with same Some p m show ?thesis by simp
      next
        case (Cons c cs)
        from skip_ws_Cons [OF Cons] short big m
        have "2 * length cs + 1 < n" and "2 * length cs + 1 < m'" by simp_all
        from ihe [OF this] same Some p Cons m show ?thesis by simp
      qed
    qed
  qed
  have membs: "parse_members (Suc n) s = parse_members m s"
    if big: "2 * length s + 1 < Suc n" "2 * length s + 1 < m"
  proof -
    from big obtain m' where m: "m = Suc m'" by (cases m) simp_all
    show ?thesis
    proof (cases "skip_ws s")
      case Nil
      with m show ?thesis by simp
    next
      case s1: (Cons q ks)
      note l1 = skip_ws_Cons [OF s1]
      show ?thesis
      proof (cases "scan_string ks")
        case None
        with s1 m show ?thesis by simp
      next
        case (Some p)
        obtain k r where p: "p = (k, r)" by (cases p)
        from Some p have l2: "length r < Suc (length ks)" by (simp add: scan_string_shorter)
        show ?thesis
        proof (cases "skip_ws r")
          case Nil
          with s1 Some p m show ?thesis by simp
        next
          case s2: (Cons colon vs)
          note l3 = skip_ws_Cons [OF s2]
          from l1 l2 l3 big m have "2 * length vs < n" and "2 * length vs < m'" by simp_all
          from ihv [OF this] have same: "parse_value n vs = parse_value m' vs" .
          show ?thesis
          proof (cases "parse_value m' vs")
            case None
            with same s1 Some p s2 m show ?thesis by simp
          next
            case v: (Some pv)
            obtain v r1 where pv: "pv = (v, r1)" by (cases pv)
            from v pv have l4: "length r1 < length vs" by (simp add: parse_value_shorter)
            show ?thesis
            proof (cases "skip_ws r1")
              case Nil
              with same v pv s1 Some p s2 m show ?thesis by simp
            next
              case s3: (Cons c cs)
              from skip_ws_Cons [OF s3] l1 l2 l3 l4 big m
              have "2 * length cs + 1 < n" and "2 * length cs + 1 < m'" by simp_all
              from ihm [OF this] same v pv s1 Some p s2 s3 m show ?thesis by simp
            qed
          qed
        qed
      qed
    qed
  qed
  from val elems membs show ?case by blast
qed

lemma JSON_parse_budget:
  "2 * length s < n \<Longrightarrow>
   JSON_parse_fragment s = (case parse_value n s of
                     None \<Rightarrow> None
                   | Some (v, r) \<Rightarrow> if skip_ws r = [] then Some v else None)"
  using budget_suffices [of s "2 * length s + 1" n] by (simp add: JSON_parse_fragment_def)

text \<open>Reading back the text the route writes gives the list it started from.\<close>

lemma parse_products: "JSON_parse_fragment (JSON_stringify products) = Some products"
  by code_simp

lemma stringify_products_nonempty: "JSON_stringify products \<noteq> []"
  by code_simp

text \<open>
  A listener assigns \<open>redisReady\<close> and prints; it touches nothing else, and without a
  registered listener an event changes nothing at all.
\<close>

lemma emit_redisClient [simp]: "redisClient (emit e w) = redisClient w"
  by (cases e) (simp_all add: emit_def print_def)

lemma emit_listening [simp]: "listening (emit e w) = listening w"
  by (cases e) (simp_all add: emit_def print_def)

lemma emit_keyspace [simp]: "keyspace (emit e w) = keyspace w"
  by (cases e) (simp_all add: emit_def print_def)

lemma emit_calls [simp]: "calls (emit e w) = calls w"
  by (cases e) (simp_all add: emit_def print_def)

lemma emit_deaf: "\<not> listening w \<Longrightarrow> emit e w = w"
  by (simp add: emit_def)

lemma fold_emit_redisClient [simp]: "redisClient (fold emit evs w) = redisClient w"
  by (induction evs arbitrary: w) simp_all

lemma fold_emit_listening [simp]: "listening (fold emit evs w) = listening w"
  by (induction evs arbitrary: w) simp_all

text \<open>The route without a usable handle: neither cache block runs.\<close>

lemma route_without_handle:
  assumes "getRedisClient w = None"
  shows "products_route parse rq w =
           (case db_error rq of
              None \<Rightarrow> (from_db, w\<lparr>clock := clock w + 1500, calls := calls w @ [DB]\<rparr>)
            | Some m \<Rightarrow>
                (res_json 500 [(''error'', JStr ''Internal server error'')],
                 print ERROR (''Route failure: '' @ m)
                   (w\<lparr>clock := clock w + 1500, calls := calls w @ [DB]\<rparr>)))"
  using assms
  by (simp add: products_route_def cache_read_def load_products_def cache_write_def
      from_db_def split: option.splits)

text \<open>The route never assigns the adapter's variables.\<close>

lemma route_frame:
  "redisClient (snd (products_route parse rq w)) = redisClient w \<and>
   redisReady (snd (products_route parse rq w)) = redisReady w \<and>
   listening (snd (products_route parse rq w)) = listening w"
  by (simp add: products_route_def cache_read_def load_products_def cache_write_def
      redis_get_def redis_setEx_def print_def Let_def
      split: option.splits outcome.splits prod.splits)

text \<open>
  Invariants of a history. While \<open>redisClient\<close> is unset every request is served by the
  data source and the cache is not contacted; while the client emits no \<^verbatim>\<open>ready\<close> a
  flag that is down stays down; while no listener is registered the flag cannot move.
\<close>

lemma run_without_client:
  assumes "redisClient w = None" and "list_all source_up ss"
  shows "list_all (\<lambda>r. r = from_db) (fst (run parse ss w)) \<and>
         redisClient (snd (run parse ss w)) = None \<and>
         keyspace (snd (run parse ss w)) = keyspace w \<and>
         set (calls (snd (run parse ss w))) \<subseteq> insert DB (set (calls w))"
  using assms
proof (induction ss arbitrary: w)
  case Nil
  then show ?case by auto
next
  case (Cons s ss)
  show ?case
  proof (cases s)
    case (Emit e)
    with Cons.prems Cons.IH [of "emit e w"] show ?thesis by simp
  next
    case (Wait d)
    with Cons.prems Cons.IH [of "w\<lparr>clock := clock w + d\<rparr>"] show ?thesis by simp
  next
    case (Fetch rq)
    let ?w1 = "w\<lparr>clock := clock w + 1500, calls := calls w @ [DB]\<rparr>"
    from Cons.prems Fetch have up: "db_error rq = None" and rest: "list_all source_up ss"
      by simp_all
    from Cons.prems have "getRedisClient w = None"
      by (simp add: getRedisClient_def)
    with up have route: "products_route parse rq w = (from_db, ?w1)"
      by (simp add: route_without_handle)
    from Cons.prems have "redisClient ?w1 = None" by simp
    from Cons.IH [OF this rest] Fetch route show ?thesis
      by (auto simp: split_beta)
  qed
qed


lemma run_deaf:
  assumes "\<not> listening w" and "\<not> redisReady w"
  shows "\<not> listening (snd (run parse ss w)) \<and> \<not> redisReady (snd (run parse ss w))"
  using assms
proof (induction ss arbitrary: w)
  case Nil
  then show ?case by simp
next
  case (Cons s ss)
  show ?case
  proof (cases s)
    case (Emit e)
    with Cons.prems Cons.IH [of "emit e w"] show ?thesis by (simp add: emit_deaf)
  next
    case (Wait d)
    with Cons.prems Cons.IH [of "w\<lparr>clock := clock w + d\<rparr>"] show ?thesis by simp
  next
    case (Fetch rq)
    from route_frame [of parse rq w] Cons.prems
    have "\<not> listening (snd (products_route parse rq w))" "\<not> redisReady (snd (products_route parse rq w))"
      by simp_all
    from Cons.IH [OF this] Fetch show ?thesis
      by (simp add: split_beta)
  qed
qed

text \<open>An attempt that fails ends in the \<^verbatim>\<open>catch\<close> block.\<close>

lemma failed_attempt:
  assumes "env ''REDIS_ENABLED'' = Some ''true''" and "failed att"
  shows "connectRedis env att w = unavailable (case att of CreateThrows _ \<Rightarrow> w
           | Connect evs _ \<Rightarrow> fold emit evs (w\<lparr>redisClient := Some (createClient env), listening := True\<rparr>))"
  using assms by (cases att rule: failed.cases) (simp_all add: connectRedis_def)




text \<open>The blocks of the route with the calls to the client written out.\<close>

lemma cache_read_cases:
  "cache_read parse redis rq w =
     (case redis of
        None \<Rightarrow> (None, w)
      | Some _ \<Rightarrow>
          (case get_error rq of
             Some _ \<Rightarrow>
               (None, w\<lparr>console := console w @ [(WARN, ''Redis read failed, skipping cache'')],
                        calls := calls w @ [GET cacheKey]\<rparr>)
           | None \<Rightarrow>
               (case redis_lookup w cacheKey of
                  None \<Rightarrow> (None, w\<lparr>calls := calls w @ [GET cacheKey]\<rparr>)
                | Some text \<Rightarrow>
                    if text = [] then (None, w\<lparr>calls := calls w @ [GET cacheKey]\<rparr>)
                    else
                      (case parse text of
                         None \<Rightarrow>
                           (None, w\<lparr>console := console w @ [(WARN, ''Redis read failed, skipping cache'')],
                                    calls := calls w @ [GET cacheKey]\<rparr>)
                       | Some v \<Rightarrow> (Some (from_cache v), w\<lparr>calls := calls w @ [GET cacheKey]\<rparr>)))))"
  by (simp add: cache_read_def redis_get_def print_def from_cache_def Let_def
      split: option.splits)

lemma cache_write_cases:
  "cache_write redis rq w =
     (case redis of
        None \<Rightarrow> w
      | Some _ \<Rightarrow>
          (case setEx_error rq of
             Some _ \<Rightarrow>
               w\<lparr>console := console w @ [(WARN, ''Redis write failed'')],
                 calls := calls w @ [SETEX cacheKey 60 (JSON_stringify products)]\<rparr>
           | None \<Rightarrow>
               w\<lparr>keyspace := (keyspace w)(cacheKey \<mapsto> (JSON_stringify products, clock w + 60 * 1000)),
                 calls := calls w @ [SETEX cacheKey 60 (JSON_stringify products)]\<rparr>))"
  by (simp add: cache_write_def redis_setEx_def print_def Let_def split: option.splits)

lemma route_after_read:
  "products_route parse rq w =
     (case cache_read parse (getRedisClient w) rq w of
        (Some r, w1) \<Rightarrow> (r, w1)
      | (None, w1) \<Rightarrow>
          (case db_error rq of
             Some m \<Rightarrow>
               (internal_error,
                w1\<lparr>console := console w1 @ [(ERROR, ''Route failure: '' @ m)],
                   clock := clock w1 + 1500, calls := calls w1 @ [DB]\<rparr>)
           | None \<Rightarrow>
               (from_db,
                cache_write (getRedisClient w) rq
                  (w1\<lparr>clock := clock w1 + 1500, calls := calls w1 @ [DB]\<rparr>))))"
  by (simp add: products_route_def load_products_def print_def from_db_def internal_error_def
      Let_def split: option.splits prod.splits)

lemma cache_read_ignores_write_fault [simp]:
  "cache_read parse redis (rq\<lparr>setEx_error := x\<rparr>) w = cache_read parse redis rq w"
  by (cases redis) (simp_all add: cache_read_cases)

text \<open>
  The route consults the built-in on the live cached text and nowhere else: two
  functions that agree on that text give the same run of the route.
\<close>

lemma route_depends_on_cached_text:
  assumes "\<And>text. redis_lookup w cacheKey = Some text \<Longrightarrow> parse text = parse' text"
  shows "products_route parse rq w = products_route parse' rq w"
proof -
  from assms have "cache_read parse redis rq w = cache_read parse' redis rq w" for redis
    by (cases redis; cases "get_error rq"; cases "redis_lookup w cacheKey")
      (simp_all add: cache_read_cases)
  then show ?thesis
    by (simp add: products_route_def)
qed

lemma handle_present:
  "redisClient w = Some c \<Longrightarrow> redisReady w \<Longrightarrow> getRedisClient w = Some c"
  by (simp add: getRedisClient_def)

text \<open>The slow path with a usable handle, after a read that found nothing usable.\<close>

lemma route_fall_through:
  assumes "getRedisClient w = Some c" and "cache_read parse (Some c) rq w = (None, w1)"
    and "db_error rq = None"
  shows "products_route parse rq w =
           (from_db, cache_write (Some c) rq
                       (w1\<lparr>clock := clock w1 + 1500, calls := calls w1 @ [DB]\<rparr>))"
  using assms by (simp add: route_after_read)

lemma stringify_products_text:
  "JSON_stringify products =
     ''[{'' @ quote ''id'' @ '':1,'' @ quote ''name'' @ '':'' @ quote ''Laptop'' @ ''},{'' @
     quote ''id'' @ '':2,'' @ quote ''name'' @ '':'' @ quote ''Phone'' @ ''}]''"
  by code_simp

text \<open>The two example environments and the world after a successful start.\<close>

lemma env_on_enabled: "env_on ''REDIS_ENABLED'' = Some ''true''"
  by (simp add: env_on_def)

lemma env_off_disabled: "env_off ''REDIS_ENABLED'' \<noteq> Some ''true''"
  by (simp add: env_off_def)

lemma connected_world:
  "connected ks =
     \<lparr>redisClient = Some (createClient env_on), redisReady = True, listening = True,
      console = [(LOG, ''Redis ready'')], clock = 0, keyspace = ks, calls = []\<rparr>"
  by (simp add: connected_def boot_def connectRedis_def env_on_enabled loaded_def emit_def
      print_def)

lemma not_json: "JSON_parse_fragment ''not json'' = None"
  by code_simp

section \<open>The claims\<close>

text \<open>
  \<^bold>\<open>Claim C1.\<close> When \<^verbatim>\<open>REDIS_ENABLED\<close> is absent or is anything but the text
  \<^verbatim>\<open>true\<close>, \<^verbatim>\<open>connectRedis\<close> returns \<^verbatim>\<open>null\<close> and, whatever happens afterwards
  and whatever \<^verbatim>\<open>JSON.parse\<close> does, every request whose data source answers is replied
  to with status 200, source \<^verbatim>\<open>db\<close> and the product list; the only calls made are
  runs of the data source (no \<^verbatim>\<open>GET\<close>, no \<^verbatim>\<open>SETEX\<close>) and the keyspace of the cache
  service is left as it was. Against a cache that is switched on and healthy (a client,
  the flag up, commands that go through, and under the key either nothing or what the
  route itself wrote, read back by the reader of the second section) the reply has the
  same status and the same data; what differs is the source tag.
\<close>

theorem disabled_cache_serves_from_source:
  assumes "env ''REDIS_ENABLED'' \<noteq> Some ''true''" and "list_all source_up ss"
  shows "fst (connectRedis env att (loaded ks t)) = None \<and>
         list_all (\<lambda>r. r = from_db) (fst (run parse ss (boot env att ks t))) \<and>
         list_all (\<lambda>c. c = DB) (calls (snd (run parse ss (boot env att ks t)))) \<and>
         keyspace (snd (run parse ss (boot env att ks t))) = ks \<and>
         (\<forall>rq w. redisClient w \<noteq> None \<and> redisReady w \<and> get_error rq = None \<and> db_error rq = None \<and>
            redis_lookup w cacheKey \<in> {None, Some (JSON_stringify products)}
            \<longrightarrow> status (fst (products_route JSON_parse_fragment rq w)) = status (from_db :: int reply) \<and>
                data_of (fst (products_route JSON_parse_fragment rq w)) = data_of from_db)"
proof -
  let ?w = "boot env att ks t"
  from assms(1) have b: "?w = print LOG ''Redis disabled via env'' (loaded ks t)"
    by (simp add: boot_def connectRedis_def)
  then have none: "redisClient ?w = None" and ks: "keyspace ?w = ks" and cs: "calls ?w = []"
    by (simp_all add: print_def loaded_def)
  from run_without_client [OF none assms(2), where parse = parse] ks cs
  have "list_all (\<lambda>r. r = from_db) (fst (run parse ss ?w))"
    and "keyspace (snd (run parse ss ?w)) = ks"
    and "set (calls (snd (run parse ss ?w))) \<subseteq> {DB}"
    by simp_all
  moreover from assms(1) have "fst (connectRedis env att (loaded ks t)) = None"
    by (simp add: connectRedis_def)
  moreover have "\<forall>rq w. redisClient w \<noteq> None \<and> redisReady w \<and> get_error rq = None \<and> db_error rq = None \<and>
            redis_lookup w cacheKey \<in> {None, Some (JSON_stringify products)}
            \<longrightarrow> status (fst (products_route JSON_parse_fragment rq w)) = status (from_db :: int reply) \<and>
                data_of (fst (products_route JSON_parse_fragment rq w)) = data_of from_db"
    by (auto simp: products_route_def cache_read_def load_products_def cache_write_def
        redis_get_def redis_setEx_def getRedisClient_def from_db_def res_json_def data_of_def
        parse_products stringify_products_nonempty Let_def
        split: option.splits outcome.splits prod.splits)
  ultimately show ?thesis
    by (auto simp: list_all_iff)
qed

theorem disabled_cache_serves_from_source_witness:
  "env_off ''REDIS_ENABLED'' \<noteq> Some ''true'' \<and>
   list_all source_up [Fetch no_faults, Wait 10, Fetch no_faults] \<and>
   list_all (\<lambda>r. r = from_db)
     (fst (run JSON_parse_fragment [Fetch no_faults, Wait 10, Fetch no_faults]
        (boot env_off (Connect [Ready] Resolves) Map.empty 0))) \<and>
   list_all (\<lambda>c. c = DB)
     (calls (snd (run JSON_parse_fragment [Fetch no_faults, Wait 10, Fetch no_faults]
        (boot env_off (Connect [Ready] Resolves) Map.empty 0)))) \<and>
   redisClient (connected Map.empty) \<noteq> None \<and> redisReady (connected Map.empty) \<and>
   redis_lookup (connected Map.empty) cacheKey \<in> {None, Some (JSON_stringify products)} \<and>
   data_of (fst (products_route JSON_parse_fragment no_faults (connected Map.empty))) = data_of from_db"
proof -
  have off: "env_off ''REDIS_ENABLED'' \<noteq> Some ''true''"
    by (rule env_off_disabled)
  have up: "list_all source_up [Fetch no_faults, Wait 10, Fetch no_faults]"
    by (simp add: no_faults_def)
  have healthy: "redisClient (connected Map.empty) \<noteq> None \<and> redisReady (connected Map.empty) \<and>
      get_error no_faults = None \<and> db_error no_faults = None \<and>
      redis_lookup (connected Map.empty) cacheKey \<in> {None, Some (JSON_stringify products)}"
    by (simp add: connected_world no_faults_def redis_lookup_def)
  from disabled_cache_serves_from_source
    [where env = env_off and ss = "[Fetch no_faults, Wait 10, Fetch no_faults]"
       and att = "Connect [Ready] Resolves" and ks = Map.empty and t = 0
       and parse = JSON_parse_fragment]
    off up healthy
  show ?thesis by blast
qed

text \<open>
  \<^bold>\<open>Claim C2.\<close> When the cache is switched on and the attempt fails, because
  \<^verbatim>\<open>createClient\<close> throws or because \<^verbatim>\<open>connect()\<close> rejects (refusal and timeout
  alike), \<^verbatim>\<open>connectRedis\<close> returns \<^verbatim>\<open>null\<close> with \<open>redisClient\<close> unset and
  \<open>redisReady\<close> down. In every history that follows, whatever the abandoned client
  still emits and whatever \<^verbatim>\<open>JSON.parse\<close> does, each request whose data source
  answers gets status 200, source \<^verbatim>\<open>db\<close> and the product list, and
  \<^verbatim>\<open>getRedisClient\<close> keeps returning \<^verbatim>\<open>null\<close>.
\<close>

theorem failed_connect_fails_soft:
  assumes "env ''REDIS_ENABLED'' = Some ''true''" and "failed att" and "list_all source_up ss"
  shows "fst (connectRedis env att w) = None \<and>
         redisClient (snd (connectRedis env att w)) = None \<and>
         \<not> redisReady (snd (connectRedis env att w)) \<and>
         getRedisClient (snd (connectRedis env att w)) = None \<and>
         list_all (\<lambda>r. r = from_db) (fst (run parse ss (snd (connectRedis env att w)))) \<and>
         getRedisClient (snd (run parse ss (snd (connectRedis env att w)))) = None"
proof -
  let ?w0 = "snd (connectRedis env att w)"
  from failed_attempt [of env att w] assms(1,2)
  have ret: "fst (connectRedis env att w) = None" and none: "redisClient ?w0 = None"
    and down: "\<not> redisReady ?w0"
    by (simp_all add: unavailable_def print_def)
  from run_without_client [OF none assms(3), where parse = parse]
  have "list_all (\<lambda>r. r = from_db) (fst (run parse ss ?w0))" and "redisClient (snd (run parse ss ?w0)) = None"
    by simp_all
  with ret none down show ?thesis
    by (simp add: getRedisClient_def)
qed

theorem failed_connect_fails_soft_witness:
  "env_on ''REDIS_ENABLED'' = Some ''true'' \<and>
   failed (Connect [Error ''ECONNREFUSED''] (Rejects ''ECONNREFUSED'')) \<and>
   list_all source_up [Fetch no_faults, Emit Ready, Fetch no_faults] \<and>
   fst (connectRedis env_on (Connect [Error ''ECONNREFUSED''] (Rejects ''ECONNREFUSED''))
          (loaded Map.empty 0)) = None \<and>
   \<not> redisReady (snd (connectRedis env_on (Connect [Error ''ECONNREFUSED''] (Rejects ''ECONNREFUSED''))
          (loaded Map.empty 0))) \<and>
   list_all (\<lambda>r. r = from_db)
     (fst (run JSON_parse_fragment [Fetch no_faults, Emit Ready, Fetch no_faults]
        (snd (connectRedis env_on (Connect [Error ''ECONNREFUSED''] (Rejects ''ECONNREFUSED''))
          (loaded Map.empty 0)))))"
proof -
  have up: "list_all source_up [Fetch no_faults, Emit Ready, Fetch no_faults]"
    by (simp add: no_faults_def)
  have bad: "failed (Connect [Error ''ECONNREFUSED''] (Rejects ''ECONNREFUSED''))"
    by simp
  from failed_connect_fails_soft
    [where env = env_on and att = "Connect [Error ''ECONNREFUSED''] (Rejects ''ECONNREFUSED'')"
       and ss = "[Fetch no_faults, Emit Ready, Fetch no_faults]" and w = "loaded Map.empty 0"
       and parse = JSON_parse_fragment]
    env_on_enabled bad up
  show ?thesis by blast
qed

text \<open>
  \<^bold>\<open>Claim C3.\<close> Let \<open>parse\<close> be any function in the place of \<^verbatim>\<open>JSON.parse\<close>, into
  JSON trees over any type of numbers. With a usable handle, a \<^verbatim>\<open>GET\<close> that goes
  through and a cached text that is not empty and for which \<open>parse\<close> returns \<open>v\<close>, the
  route replies with status 200, source \<^verbatim>\<open>cache\<close> and data \<open>v\<close>, the very value
  returned. The world afterwards differs from the world before by the one \<^verbatim>\<open>GET\<close>
  only: the data source did not run, no \<^verbatim>\<open>SETEX\<close> was sent, no time passed, nothing
  was printed. Faults of the data source and of the write have no say, since neither is
  reached.
\<close>

theorem cache_hit_skips_source:
  assumes "redisClient w = Some c" and "redisReady w" and "get_error rq = None"
    and "redis_lookup w cacheKey = Some text" and "text \<noteq> []" and "parse text = Some v"
  shows "products_route parse rq w = (from_cache v, w\<lparr>calls := calls w @ [GET cacheKey]\<rparr>)"
  using assms by (simp add: route_after_read cache_read_cases handle_present)

theorem cache_hit_skips_source_witness:
  "redisClient (connected [cacheKey \<mapsto> (JSON_stringify products, 61500)]) = Some (createClient env_on) \<and>
   redisReady (connected [cacheKey \<mapsto> (JSON_stringify products, 61500)]) \<and>
   get_error (no_faults\<lparr>db_error := Some ''down''\<rparr>) = None \<and>
   redis_lookup (connected [cacheKey \<mapsto> (JSON_stringify products, 61500)]) cacheKey =
     Some (JSON_stringify products) \<and>
   JSON_stringify products \<noteq> [] \<and>
   JSON_parse_fragment (JSON_stringify products) = Some products \<and>
   products_route JSON_parse_fragment (no_faults\<lparr>db_error := Some ''down''\<rparr>)
     (connected [cacheKey \<mapsto> (JSON_stringify products, 61500)]) =
     (from_cache products,
      (connected [cacheKey \<mapsto> (JSON_stringify products, 61500)])\<lparr>calls := [GET cacheKey]\<rparr>)"
proof -
  let ?w = "connected [cacheKey \<mapsto> (JSON_stringify products, 61500)]"
  have a: "redisClient ?w = Some (createClient env_on)" and b: "redisReady ?w"
    and ca: "calls ?w = []"
    by (simp_all add: connected_world)
  have c: "get_error (no_faults\<lparr>db_error := Some ''down''\<rparr>) = None"
    by (simp add: no_faults_def)
  have d: "redis_lookup ?w cacheKey = Some (JSON_stringify products)"
    by (simp add: connected_world redis_lookup_def)
  from cache_hit_skips_source
    [where parse = JSON_parse_fragment, OF a b c d stringify_products_nonempty parse_products] ca
  have "products_route JSON_parse_fragment (no_faults\<lparr>db_error := Some ''down''\<rparr>) ?w =
          (from_cache products, ?w\<lparr>calls := [GET cacheKey]\<rparr>)"
    by simp
  with a b c d stringify_products_nonempty parse_products show ?thesis
    by blast
qed

text \<open>
  \<^bold>\<open>Claim C4.\<close> Let \<open>parse\<close> be any function in the place of \<^verbatim>\<open>JSON.parse\<close>. With
  a usable handle, a \<^verbatim>\<open>GET\<close> that goes through and a cached text that is not empty
  and on which \<open>parse\<close> throws (the result \<open>None\<close>), the route replies from the data
  source (status 200, source \<^verbatim>\<open>db\<close>, the product list) after exactly the calls
  \<^verbatim>\<open>GET\<close>, data source, \<^verbatim>\<open>SETEX\<close> with 60 seconds and the serialised list. When
  that write is acknowledged the corrupted entry is replaced by the serialised list,
  which the service then returns. Reply and calls are those of the same request with the
  key absent, and so is the keyspace afterwards when the write is acknowledged.
\<close>

theorem malformed_entry_is_a_miss:
  assumes "redisClient w = Some c" and "redisReady w" and "get_error rq = None"
    and "redis_lookup w cacheKey = Some text" and "text \<noteq> []" and "parse text = None"
    and "db_error rq = None"
  shows "fst (products_route parse rq w) = from_db \<and>
         calls (snd (products_route parse rq w)) =
           calls w @ [GET cacheKey, DB, SETEX cacheKey 60 (JSON_stringify products)] \<and>
         (setEx_error rq = None \<longrightarrow>
            keyspace (snd (products_route parse rq w)) =
              (keyspace w)(cacheKey \<mapsto> (JSON_stringify products, clock w + 1500 + 60 * 1000)) \<and>
            redis_lookup (snd (products_route parse rq w)) cacheKey = Some (JSON_stringify products)) \<and>
         fst (products_route parse rq (w\<lparr>keyspace := (keyspace w)(cacheKey := None)\<rparr>)) =
           fst (products_route parse rq w) \<and>
         calls (snd (products_route parse rq (w\<lparr>keyspace := (keyspace w)(cacheKey := None)\<rparr>))) =
           calls (snd (products_route parse rq w)) \<and>
         (setEx_error rq = None \<longrightarrow>
            keyspace (snd (products_route parse rq (w\<lparr>keyspace := (keyspace w)(cacheKey := None)\<rparr>))) =
              keyspace (snd (products_route parse rq w)))"
proof -
  let ?miss = "w\<lparr>keyspace := (keyspace w)(cacheKey := None)\<rparr>"
  let ?warned = "w\<lparr>console := console w @ [(WARN, ''Redis read failed, skipping cache'')],
                    calls := calls w @ [GET cacheKey]\<rparr>"
  from assms have h: "getRedisClient w = Some c" by (simp add: handle_present)
  from assms have read: "cache_read parse (Some c) rq w = (None, ?warned)"
    by (simp add: cache_read_cases)
  have corrupted: "products_route parse rq w =
      (from_db, cache_write (Some c) rq
                  (?warned\<lparr>clock := clock ?warned + 1500, calls := calls ?warned @ [DB]\<rparr>))"
    by (rule route_fall_through [OF h read assms(7)])
  from assms have h': "getRedisClient ?miss = Some c" by (simp add: getRedisClient_def)
  have "redis_lookup ?miss cacheKey = None" by (simp add: redis_lookup_def)
  with assms have read': "cache_read parse (Some c) rq ?miss = (None, ?miss\<lparr>calls := calls w @ [GET cacheKey]\<rparr>)"
    by (simp add: cache_read_cases)
  have absent: "products_route parse rq ?miss =
      (from_db, cache_write (Some c) rq
                  (?miss\<lparr>calls := calls w @ [GET cacheKey], clock := clock w + 1500,
                         calls := calls w @ [GET cacheKey] @ [DB]\<rparr>))"
    using route_fall_through [OF h' read' assms(7)] by simp
  show ?thesis
    unfolding corrupted absent
    by (cases "setEx_error rq") (simp_all add: cache_write_cases redis_lookup_def)
qed

theorem malformed_entry_is_a_miss_witness:
  "redisReady (connected [cacheKey \<mapsto> (''not json'', 5000)]) \<and>
   redis_lookup (connected [cacheKey \<mapsto> (''not json'', 5000)]) cacheKey = Some ''not json'' \<and>
   JSON_parse_fragment ''not json'' = None \<and>
   fst (products_route JSON_parse_fragment no_faults (connected [cacheKey \<mapsto> (''not json'', 5000)])) = from_db \<and>
   calls (snd (products_route JSON_parse_fragment no_faults (connected [cacheKey \<mapsto> (''not json'', 5000)]))) =
     [GET cacheKey, DB, SETEX cacheKey 60 (JSON_stringify products)] \<and>
   redis_lookup (snd (products_route JSON_parse_fragment no_faults (connected [cacheKey \<mapsto> (''not json'', 5000)]))) cacheKey =
     Some (JSON_stringify products)"
proof -
  let ?w = "connected [cacheKey \<mapsto> (''not json'', 5000)]"
  have a: "redisClient ?w = Some (createClient env_on)" and b: "redisReady ?w"
    and ca: "calls ?w = []"
    by (simp_all add: connected_world)
  have c: "get_error no_faults = None" and up: "db_error no_faults = None"
    and ack: "setEx_error no_faults = None"
    by (simp_all add: no_faults_def)
  have d: "redis_lookup ?w cacheKey = Some ''not json''"
    by (simp add: connected_world redis_lookup_def)
  have e: "''not json'' \<noteq> []" by simp
  from malformed_entry_is_a_miss [where parse = JSON_parse_fragment, OF a b c d e not_json up] ack ca b d not_json
  show ?thesis by simp
qed

text \<open>
  \<^bold>\<open>Claim C5.\<close> For every request, every world and every function in the place of
  \<^verbatim>\<open>JSON.parse\<close>, the reply is the same whether \<^verbatim>\<open>setEx\<close> rejects or is
  acknowledged, and so are the calls made and the time taken; the console of the
  rejecting run is that of the acknowledged run, with at most the line
  \<^verbatim>\<open>Redis write failed\<close> appended. When the read block falls through and the data
  source answers, both replies are status 200, source \<^verbatim>\<open>db\<close>, the product list.
\<close>

theorem write_outcome_is_ignored:
  "fst (products_route parse (rq\<lparr>setEx_error := Some m\<rparr>) w) =
     fst (products_route parse (rq\<lparr>setEx_error := None\<rparr>) w) \<and>
   calls (snd (products_route parse (rq\<lparr>setEx_error := Some m\<rparr>) w)) =
     calls (snd (products_route parse (rq\<lparr>setEx_error := None\<rparr>) w)) \<and>
   clock (snd (products_route parse (rq\<lparr>setEx_error := Some m\<rparr>) w)) =
     clock (snd (products_route parse (rq\<lparr>setEx_error := None\<rparr>) w)) \<and>
   (console (snd (products_route parse (rq\<lparr>setEx_error := Some m\<rparr>) w)) =
      console (snd (products_route parse (rq\<lparr>setEx_error := None\<rparr>) w)) \<or>
    console (snd (products_route parse (rq\<lparr>setEx_error := Some m\<rparr>) w)) =
      console (snd (products_route parse (rq\<lparr>setEx_error := None\<rparr>) w)) @ [(WARN, ''Redis write failed'')]) \<and>
   (fst (cache_read parse (getRedisClient w) rq w) = None \<and> db_error rq = None \<longrightarrow>
      fst (products_route parse (rq\<lparr>setEx_error := Some m\<rparr>) w) = from_db \<and>
      fst (products_route parse (rq\<lparr>setEx_error := None\<rparr>) w) = from_db)"
proof (cases "cache_read parse (getRedisClient w) rq w")
  case (Pair hit w1)
  show ?thesis
  proof (cases hit)
    case (Some r)
    with Pair show ?thesis by (simp add: route_after_read)
  next
    case None
    with Pair show ?thesis
      by (cases "db_error rq"; cases "getRedisClient w")
        (simp_all add: route_after_read cache_write_cases)
  qed
qed

theorem write_outcome_is_ignored_witness:
  "fst (cache_read JSON_parse_fragment (getRedisClient (connected Map.empty)) no_faults (connected Map.empty)) = None \<and>
   db_error no_faults = None \<and>
   fst (products_route JSON_parse_fragment (no_faults\<lparr>setEx_error := Some ''ETIMEDOUT''\<rparr>) (connected Map.empty)) = from_db \<and>
   fst (products_route JSON_parse_fragment (no_faults\<lparr>setEx_error := None\<rparr>) (connected Map.empty)) = from_db"
proof -
  have a: "fst (cache_read JSON_parse_fragment (getRedisClient (connected Map.empty)) no_faults (connected Map.empty)) = None"
    by (simp add: connected_world getRedisClient_def cache_read_cases no_faults_def
        redis_lookup_def)
  have b: "db_error no_faults = None"
    by (simp add: no_faults_def)
  from write_outcome_is_ignored
    [where rq = no_faults and m = "''ETIMEDOUT''" and w = "connected Map.empty"
       and parse = JSON_parse_fragment] a b
  show ?thesis by blast
qed

text \<open>
  \<^bold>\<open>Claim C6.\<close> For every function in the place of \<^verbatim>\<open>JSON.parse\<close>, the reply of the
  route is one of three: source \<^verbatim>\<open>db\<close> with the product list, source \<^verbatim>\<open>cache\<close>
  with some value (both with status 200), or status 500 with a body whose only member
  is \<^verbatim>\<open>error\<close>, and the last only when the data source threw. Whenever the data
  source answers the status is 200, whatever the state of the connection, whether
  \<^verbatim>\<open>get\<close> or \<^verbatim>\<open>setEx\<close> reject, and whatever text the cache holds. The status is
  500 exactly when the read block fell through and the data source threw.
\<close>

theorem only_source_failure_surfaces:
  "(fst (products_route parse rq w) = from_db \<or>
    (\<exists>v. fst (products_route parse rq w) = from_cache v) \<or>
    (fst (products_route parse rq w) = internal_error \<and> db_error rq \<noteq> None)) \<and>
   (db_error rq = None \<longrightarrow> status (fst (products_route parse rq w)) = 200) \<and>
   (status (fst (products_route parse rq w)) = 500 \<longleftrightarrow>
      db_error rq \<noteq> None \<and> fst (cache_read parse (getRedisClient w) rq w) = None)"
proof (cases "cache_read parse (getRedisClient w) rq w")
  case (Pair hit w1)
  show ?thesis
  proof (cases hit)
    case (Some r)
    with Pair have "\<exists>v. r = from_cache v"
      by (cases "getRedisClient w")
        (auto simp: cache_read_cases split: option.splits if_splits)
    with Pair Some show ?thesis
      by (auto simp: route_after_read from_cache_def res_json_def)
  next
    case None
    with Pair show ?thesis
      by (cases "db_error rq")
        (simp_all add: route_after_read from_db_def internal_error_def res_json_def)
  qed
qed

theorem only_source_failure_surfaces_witness:
  "db_error (no_faults\<lparr>get_error := Some ''ECONNRESET'', setEx_error := Some ''ECONNRESET''\<rparr>) = None \<and>
   status (fst (products_route JSON_parse_fragment
     (no_faults\<lparr>get_error := Some ''ECONNRESET'', setEx_error := Some ''ECONNRESET''\<rparr>)
     (connected [cacheKey \<mapsto> (''not json'', 5000)]))) = 200"
proof -
  have a: "db_error (no_faults\<lparr>get_error := Some ''ECONNRESET'', setEx_error := Some ''ECONNRESET''\<rparr>) = None"
    by (simp add: no_faults_def)
  from only_source_failure_surfaces
    [where rq = "no_faults\<lparr>get_error := Some ''ECONNRESET'', setEx_error := Some ''ECONNRESET''\<rparr>"
       and w = "connected [cacheKey \<mapsto> (''not json'', 5000)]"
       and parse = JSON_parse_fragment] a
  show ?thesis by blast
qed

text \<open>
  \<^bold>\<open>Claim C7.\<close> With a usable handle, no live entry under the key and no fault, the
  first request is replied to from the data source and sends \<^verbatim>\<open>SETEX\<close> for the key
  with 60 seconds and the serialised product list, which the service then holds until
  60000 milliseconds after the write. A second request whose \<^verbatim>\<open>GET\<close> goes through,
  less than 60000 milliseconds later, is replied to with source \<^verbatim>\<open>cache\<close> and the
  same product list: reading the serialised list gives the list back. The only text
  read here is the one the route wrote, so the reader of the second section is in the
  place of \<^verbatim>\<open>JSON.parse\<close>.
\<close>

theorem first_fetch_fills_second_hits:
  assumes "redisClient w = Some c" and "redisReady w" and "redis_lookup w cacheKey = None"
    and "rq1 = no_faults" and "get_error rq2 = None" and "d < 60 * 1000"
  shows "fst (run JSON_parse_fragment [Fetch rq1, Wait d, Fetch rq2] w) = [from_db, from_cache products] \<and>
         calls (snd (products_route JSON_parse_fragment rq1 w)) =
           calls w @ [GET cacheKey, DB, SETEX cacheKey 60 (JSON_stringify products)] \<and>
         keyspace (snd (products_route JSON_parse_fragment rq1 w)) cacheKey =
           Some (JSON_stringify products, clock w + 1500 + 60 * 1000) \<and>
         JSON_parse_fragment (JSON_stringify products) = Some products \<and>
         data_of (from_cache products) = data_of (from_db :: int reply)"
proof -
  let ?got = "w\<lparr>calls := calls w @ [GET cacheKey]\<rparr>"
  let ?w1 = "w\<lparr>keyspace := (keyspace w)(cacheKey \<mapsto> (JSON_stringify products, clock w + 1500 + 60 * 1000)),
               clock := clock w + 1500,
               calls := calls w @ [GET cacheKey, DB, SETEX cacheKey 60 (JSON_stringify products)]\<rparr>"
  from assms have h: "getRedisClient w = Some c" by (simp add: handle_present)
  from assms have read: "cache_read JSON_parse_fragment (Some c) rq1 w = (None, ?got)"
    by (simp add: cache_read_cases no_faults_def)
  from assms have up: "db_error rq1 = None" and ack: "setEx_error rq1 = None"
    by (simp_all add: no_faults_def)
  from route_fall_through [OF h read up] ack
  have first: "products_route JSON_parse_fragment rq1 w = (from_db, ?w1)"
    by (simp add: cache_write_cases)
  let ?w2 = "?w1\<lparr>clock := clock ?w1 + d\<rparr>"
  from assms(6) have "redis_lookup ?w2 cacheKey = Some (JSON_stringify products)"
    by (simp add: redis_lookup_def)
  moreover from assms have "redisClient ?w2 = Some c" and "redisReady ?w2" by simp_all
  ultimately have second: "products_route JSON_parse_fragment rq2 ?w2 =
      (from_cache products, ?w2\<lparr>calls := calls ?w2 @ [GET cacheKey]\<rparr>)"
    using assms(5)
    by (simp add: route_after_read cache_read_cases handle_present
        parse_products stringify_products_nonempty)
  have "data_of (from_cache products) = data_of (from_db :: int reply)"
    by (simp add: data_of_def from_cache_def from_db_def res_json_def)
  with first second show ?thesis
    by (simp add: parse_products)
qed

theorem first_fetch_fills_second_hits_witness:
  "redisReady (connected Map.empty) \<and>
   redis_lookup (connected Map.empty) cacheKey = None \<and>
   (59999::nat) < 60 * 1000 \<and>
   fst (run JSON_parse_fragment [Fetch no_faults, Wait 59999, Fetch no_faults] (connected Map.empty)) =
     [from_db, from_cache products] \<and>
   calls (snd (products_route JSON_parse_fragment no_faults (connected Map.empty))) =
     [GET cacheKey, DB, SETEX cacheKey 60 (JSON_stringify products)] \<and>
   keyspace (snd (products_route JSON_parse_fragment no_faults (connected Map.empty))) cacheKey =
     Some (JSON_stringify products, 61500)"
proof -
  let ?w = "connected Map.empty"
  have a: "redisClient ?w = Some (createClient env_on)" and b: "redisReady ?w"
    and ca: "calls ?w = []" and cl: "clock ?w = 0"
    by (simp_all add: connected_world)
  have c: "redis_lookup ?w cacheKey = None"
    by (simp add: connected_world redis_lookup_def)
  have d: "get_error no_faults = None"
    by (simp add: no_faults_def)
  have e: "(59999::nat) < 60 * 1000" by simp
  from first_fetch_fills_second_hits [OF a b c refl d e] ca cl b c
  show ?thesis by simp
qed

text \<open>
  \<^bold>\<open>Claim C8.\<close> The flag is down when the module has loaded, and in every world
  reached from there by \<^verbatim>\<open>connectRedis\<close> and any history (this includes the worlds
  seen while \<^verbatim>\<open>connect()\<close> is pending, which are those of an attempt that resolves
  after the events so far) the flag is up only if \<^verbatim>\<open>REDIS_ENABLED\<close> is \<^verbatim>\<open>true\<close>.
  \<^verbatim>\<open>getRedisClient\<close> returns \<^verbatim>\<open>null\<close> exactly when \<open>redisClient\<close> is unset or the
  flag is down, hence always when the cache is switched off, and otherwise returns the
  client; it has no exceptional result.
\<close>

theorem ready_only_if_enabled:
  "\<not> redisReady (loaded ks t) \<and>
   (redisReady (snd (run parse ss (boot env att ks t))) \<longrightarrow> env ''REDIS_ENABLED'' = Some ''true'') \<and>
   (env ''REDIS_ENABLED'' \<noteq> Some ''true'' \<longrightarrow> getRedisClient (snd (run parse ss (boot env att ks t))) = None) \<and>
   (getRedisClient w = None \<longleftrightarrow> redisClient w = None \<or> \<not> redisReady w) \<and>
   (getRedisClient w \<noteq> None \<longrightarrow> getRedisClient w = redisClient w)"
proof -
  have off: "\<not> redisReady (snd (run parse ss (boot env att ks t)))"
    if "env ''REDIS_ENABLED'' \<noteq> Some ''true''"
  proof -
    from that have "boot env att ks t = print LOG ''Redis disabled via env'' (loaded ks t)"
      by (simp add: boot_def connectRedis_def)
    then have "\<not> listening (boot env att ks t)" and "\<not> redisReady (boot env att ks t)"
      by (simp_all add: print_def loaded_def)
    from run_deaf [OF this, where parse = parse] show ?thesis by simp
  qed
  then show ?thesis
    by (auto simp: getRedisClient_def loaded_def)
qed

theorem ready_only_if_enabled_witness:
  "redisReady (snd (run JSON_parse_fragment [] (boot env_on (Connect [Ready] Resolves) Map.empty 0))) \<and>
   env_on ''REDIS_ENABLED'' = Some ''true'' \<and>
   env_off ''REDIS_ENABLED'' \<noteq> Some ''true'' \<and>
   \<not> redisReady (snd (run JSON_parse_fragment [Emit Ready, Fetch no_faults]
      (boot env_off (Connect [Ready] Resolves) Map.empty 0))) \<and>
   getRedisClient (snd (run JSON_parse_fragment [Emit Ready, Fetch no_faults]
      (boot env_off (Connect [Ready] Resolves) Map.empty 0))) = None"
proof -
  have a: "redisReady (snd (run JSON_parse_fragment [] (boot env_on (Connect [Ready] Resolves) Map.empty 0)))"
    using connected_world [of Map.empty] by (simp add: connected_def)
  from ready_only_if_enabled
    [where ks = Map.empty and t = 0 and ss = "[Emit Ready, Fetch no_faults]" and env = env_off
       and att = "Connect [Ready] Resolves" and parse = JSON_parse_fragment
       and w = "snd (run JSON_parse_fragment [Emit Ready, Fetch no_faults] (boot env_off (Connect [Ready] Resolves) Map.empty 0))"]
    env_off_disabled
  have "getRedisClient (snd (run JSON_parse_fragment [Emit Ready, Fetch no_faults]
      (boot env_off (Connect [Ready] Resolves) Map.empty 0))) = None"
    and "\<not> redisReady (snd (run JSON_parse_fragment [Emit Ready, Fetch no_faults]
      (boot env_off (Connect [Ready] Resolves) Map.empty 0)))"
    by blast+
  with a env_on_enabled env_off_disabled show ?thesis by blast
qed




text \<open>
  \<^bold>\<open>Claim C10.\<close> With a usable handle and a \<^verbatim>\<open>GET\<close> that goes through and
  returns the empty text, the test \<^verbatim>\<open>if (cached)\<close> fails and \<^verbatim>\<open>JSON.parse\<close> is not
  called: the route replies from the data source (status 200, source \<^verbatim>\<open>db\<close>, the
  product list) after the calls \<^verbatim>\<open>GET\<close>, data source, \<^verbatim>\<open>SETEX\<close>. When the write is
  acknowledged nothing is printed, the entry is replaced by the serialised list, and
  the world afterwards is the one the same request produces with the key absent.
\<close>

theorem empty_entry_is_a_miss:
  assumes "redisClient w = Some c" and "redisReady w" and "get_error rq = None"
    and "redis_lookup w cacheKey = Some []" and "db_error rq = None"
  shows "fst (products_route parse rq w) = from_db \<and>
         calls (snd (products_route parse rq w)) =
           calls w @ [GET cacheKey, DB, SETEX cacheKey 60 (JSON_stringify products)] \<and>
         (setEx_error rq = None \<longrightarrow>
            console (snd (products_route parse rq w)) = console w \<and>
            redis_lookup (snd (products_route parse rq w)) cacheKey = Some (JSON_stringify products)) \<and>
         fst (products_route parse rq (w\<lparr>keyspace := (keyspace w)(cacheKey := None)\<rparr>)) =
           fst (products_route parse rq w) \<and>
         (setEx_error rq = None \<longrightarrow>
            snd (products_route parse rq (w\<lparr>keyspace := (keyspace w)(cacheKey := None)\<rparr>)) =
              snd (products_route parse rq w))"
proof -
  let ?miss = "w\<lparr>keyspace := (keyspace w)(cacheKey := None)\<rparr>"
  let ?got = "w\<lparr>calls := calls w @ [GET cacheKey]\<rparr>"
  from assms have h: "getRedisClient w = Some c" by (simp add: handle_present)
  from assms have read: "cache_read parse (Some c) rq w = (None, ?got)"
    by (simp add: cache_read_cases)
  have empty: "products_route parse rq w =
      (from_db, cache_write (Some c) rq
                  (?got\<lparr>clock := clock ?got + 1500, calls := calls ?got @ [DB]\<rparr>))"
    by (rule route_fall_through [OF h read assms(5)])
  from assms have h': "getRedisClient ?miss = Some c" by (simp add: getRedisClient_def)
  have "redis_lookup ?miss cacheKey = None" by (simp add: redis_lookup_def)
  with assms have read': "cache_read parse (Some c) rq ?miss = (None, ?miss\<lparr>calls := calls w @ [GET cacheKey]\<rparr>)"
    by (simp add: cache_read_cases)
  have absent: "products_route parse rq ?miss =
      (from_db, cache_write (Some c) rq
                  (?miss\<lparr>calls := calls w @ [GET cacheKey], clock := clock w + 1500,
                         calls := calls w @ [GET cacheKey] @ [DB]\<rparr>))"
    using route_fall_through [OF h' read' assms(5)] by simp
  show ?thesis
    unfolding empty absent
    by (cases "setEx_error rq") (simp_all add: cache_write_cases redis_lookup_def)
qed

theorem empty_entry_is_a_miss_witness:
  "redisReady (connected [cacheKey \<mapsto> ([], 5000)]) \<and>
   redis_lookup (connected [cacheKey \<mapsto> ([], 5000)]) cacheKey = Some [] \<and>
   fst (products_route JSON_parse_fragment no_faults (connected [cacheKey \<mapsto> ([], 5000)])) = from_db \<and>
   calls (snd (products_route JSON_parse_fragment no_faults (connected [cacheKey \<mapsto> ([], 5000)]))) =
     [GET cacheKey, DB, SETEX cacheKey 60 (JSON_stringify products)] \<and>
   redis_lookup (snd (products_route JSON_parse_fragment no_faults (connected [cacheKey \<mapsto> ([], 5000)]))) cacheKey =
     Some (JSON_stringify products)"
proof -
  let ?w = "connected [cacheKey \<mapsto> ([], 5000)]"
  have a: "redisClient ?w = Some (createClient env_on)" and b: "redisReady ?w"
    and ca: "calls ?w = []"
    by (simp_all add: connected_world)
  have c: "get_error no_faults = None" and up: "db_error no_faults = None"
    and ack: "setEx_error no_faults = None"
    by (simp_all add: no_faults_def)
  have d: "redis_lookup ?w cacheKey = Some []"
    by (simp add: connected_world redis_lookup_def)
  from empty_entry_is_a_miss [where parse = JSON_parse_fragment, OF a b c d up] ack ca b d
  show ?thesis by simp
qed

end
